theory Spec2Isabelle
  imports Main "HOL-Library.AList" "HOL-Library.Word"
begin

section \<open>The mouse-binding registry and drag state of xgbutil\<close>

text \<open>
  The Go file keeps, inside \<open>XUtil\<close>, two maps keyed by \<open>MouseBindKey\<close>
  (\<open>mousebinds\<close>: key to slice of callbacks, \<open>mousegrabs\<close>: key to \<open>int\<close>) and three
  drag fields. Every method takes the receiver \<open>xu *XUtil\<close> and mutates it in place; here
  each method takes the state and returns the new one.

  A Go map is modelled as an association list read with \<open>map_of\<close> and written with
  \<open>AList.update\<close> and \<open>AList.delete\<close>. The order of the list stands for the order in which
  \<open>range\<close> happens to enumerate the map, which Go leaves unspecified: the theorems below
  are about every such list, hence about every enumeration order.

  Assumptions on the receiver, as for every method call in Go: \<open>xu\<close> is not nil and both
  maps have been allocated. Callback values of type \<open>'cb\<close> are non-nil interface values.
  The mutex \<open>mousebindsLck\<close> is held for the whole body of each method, so each method is
  one atomic step on the state; the lock itself is not modelled.
\<close>

subsection \<open>Data\<close>

text \<open>\<open>MouseBindKey\<close>: \<open>Evtype int\<close>, \<open>Win xproto.Window\<close> (uint32), \<open>Mod uint16\<close>,
  \<open>Button xproto.Button\<close> (byte). Equality is structural on all four fields.\<close>

record MouseBindKey =
  Evtype :: int
  Win :: "32 word"
  Mod :: "16 word"
  Button :: "8 word"

text \<open>\<open>type MouseDragFun func(xu *XUtil, rootX, rootY, eventX, eventY int)\<close>: four
  integer coordinates and no result. The effect of such a function is a change of the
  world \<open>'w\<close> it runs in.\<close>

type_synonym 'w MouseDragFun = "int \<Rightarrow> int \<Rightarrow> int \<Rightarrow> int \<Rightarrow> 'w \<Rightarrow> 'w"

text \<open>Modelled from the spec: the declaration of \<open>XUtil\<close> is not in the file; these are
  the fields the methods read and write, with the types their uses fix: the chain of a
  key is a slice of callbacks, the grab count a Go \<open>int\<close>, the drag flag a \<open>bool\<close>, and the
  step and end slots hold a \<open>MouseDragFun\<close> or nil (\<open>None\<close>).

  The grab count is an unbounded \<open>int\<close>: it is only ever moved by 1 per appended callback
  and by the length of an existing slice, and a slice length always fits a Go \<open>int\<close>.\<close>

record ('cb, 'w) XUtil =
  mousebinds :: "(MouseBindKey \<times> 'cb list) list"
  mousegrabs :: "(MouseBindKey \<times> int) list"
  mouseDrag :: bool
  mouseDragStep :: "'w MouseDragFun option"
  mouseDragEnd :: "'w MouseDragFun option"

text \<open>Reading a Go map at a key that is absent gives the zero value of the element
  type: the nil slice (length 0) for \<open>mousebinds\<close>, 0 for \<open>mousegrabs\<close>.\<close>

definition binds_at :: "('cb, 'w) XUtil \<Rightarrow> MouseBindKey \<Rightarrow> 'cb list" where
  "binds_at xu key = (case map_of (mousebinds xu) key of None \<Rightarrow> [] | Some cbs \<Rightarrow> cbs)"

definition grabs_at :: "('cb, 'w) XUtil \<Rightarrow> MouseBindKey \<Rightarrow> int" where
  "grabs_at xu key = (case map_of (mousegrabs xu) key of None \<Rightarrow> 0 | Some n \<Rightarrow> n)"

subsection \<open>Registry operations\<close>

definition AttachMouseBindCallback ::
  "int \<Rightarrow> 32 word \<Rightarrow> 16 word \<Rightarrow> 8 word \<Rightarrow> 'cb \<Rightarrow> ('cb, 'w) XUtil \<Rightarrow> ('cb, 'w) XUtil" where
  "AttachMouseBindCallback evtype win mods button fun xu =
     (let key = \<lparr>Evtype = evtype, Win = win, Mod = mods, Button = button\<rparr>;
          xu1 = (if map_of (mousebinds xu) key = None
                 then xu\<lparr>mousebinds := AList.update key [] (mousebinds xu)\<rparr>
                 else xu);
          xu2 = xu1\<lparr>mousebinds := AList.update key (binds_at xu1 key @ [fun]) (mousebinds xu1)\<rparr>
      in xu2\<lparr>mousegrabs := AList.update key (grabs_at xu2 key + 1) (mousegrabs xu2)\<rparr>)"

text \<open>\<open>MouseBindKeys\<close> and \<open>MouseBindCallbacks\<close> fill a fresh slice element by element.\<close>

fun copy_keys :: "(MouseBindKey \<times> 'cb list) list \<Rightarrow> MouseBindKey list" where
  "copy_keys [] = []"
| "copy_keys ((key, cbs) # rest) = key # copy_keys rest"

definition MouseBindKeys :: "('cb, 'w) XUtil \<Rightarrow> MouseBindKey list" where
  "MouseBindKeys xu = copy_keys (mousebinds xu)"

fun copy_cbs :: "'cb list \<Rightarrow> 'cb list" where
  "copy_cbs [] = []"
| "copy_cbs (cb # rest) = cb # copy_cbs rest"

definition MouseBindCallbacks :: "('cb, 'w) XUtil \<Rightarrow> MouseBindKey \<Rightarrow> 'cb list" where
  "MouseBindCallbacks xu key = copy_cbs (binds_at xu key)"

text \<open>\<open>RunMouseBindCallbacks\<close> takes the snapshot of the chain and calls \<open>cb.Run(xu, event)\<close>
  on each element. \<open>Run\<close> is the method of the callback's dynamic type, a parameter here;
  it is handed the registry and may change it, together with the rest of the program's
  state \<open>'w\<close>.\<close>

fun run_cbs ::
  "('cb \<Rightarrow> 'ev \<Rightarrow> ('cb, 'w) XUtil \<times> 'w \<Rightarrow> ('cb, 'w) XUtil \<times> 'w) \<Rightarrow> 'ev \<Rightarrow> 'cb list
   \<Rightarrow> ('cb, 'w) XUtil \<times> 'w \<Rightarrow> ('cb, 'w) XUtil \<times> 'w" where
  "run_cbs Run event [] s = s"
| "run_cbs Run event (cb # rest) s = run_cbs Run event rest (Run cb event s)"

definition RunMouseBindCallbacks ::
  "('cb \<Rightarrow> 'ev \<Rightarrow> ('cb, 'w) XUtil \<times> 'w \<Rightarrow> ('cb, 'w) XUtil \<times> 'w) \<Rightarrow> 'ev
   \<Rightarrow> int \<Rightarrow> 32 word \<Rightarrow> 16 word \<Rightarrow> 8 word \<Rightarrow> ('cb, 'w) XUtil \<times> 'w \<Rightarrow> ('cb, 'w) XUtil \<times> 'w" where
  "RunMouseBindCallbacks Run event evtype win mods button s =
     (let key = \<lparr>Evtype = evtype, Win = win, Mod = mods, Button = button\<rparr>
      in run_cbs Run event (MouseBindCallbacks (fst s) key) s)"

fun connected_loop :: "MouseBindKey list \<Rightarrow> int \<Rightarrow> 32 word \<Rightarrow> bool" where
  "connected_loop [] evtype win = False"
| "connected_loop (key # rest) evtype win =
     (if Evtype key = evtype \<and> Win key = win then True else connected_loop rest evtype win)"

definition ConnectedMouseBind :: "int \<Rightarrow> 32 word \<Rightarrow> ('cb, 'w) XUtil \<Rightarrow> bool" where
  "ConnectedMouseBind evtype win xu = connected_loop (map fst (mousebinds xu)) evtype win"

text \<open>\<open>DetachMouseBindWindow\<close> ranges over the keys of \<open>mousebinds\<close> and deletes the key
  it is at. Deleting the current key during \<open>range\<close> is allowed in Go and does not disturb
  the enumeration of the others, so the loop runs over the keys present at entry.\<close>

fun detach_loop ::
  "MouseBindKey list \<Rightarrow> int \<Rightarrow> 32 word \<Rightarrow> ('cb, 'w) XUtil \<Rightarrow> ('cb, 'w) XUtil" where
  "detach_loop [] evtype win xu = xu"
| "detach_loop (key # rest) evtype win xu =
     detach_loop rest evtype win
       (if Evtype key = evtype \<and> Win key = win
        then xu\<lparr>mousegrabs :=
                  AList.update key (grabs_at xu key - int (length (binds_at xu key))) (mousegrabs xu),
                mousebinds := AList.delete key (mousebinds xu)\<rparr>
        else xu)"

definition DetachMouseBindWindow :: "int \<Rightarrow> 32 word \<Rightarrow> ('cb, 'w) XUtil \<Rightarrow> ('cb, 'w) XUtil" where
  "DetachMouseBindWindow evtype win xu = detach_loop (map fst (mousebinds xu)) evtype win xu"

definition MouseBindGrabs :: "int \<Rightarrow> 32 word \<Rightarrow> 16 word \<Rightarrow> 8 word \<Rightarrow> ('cb, 'w) XUtil \<Rightarrow> int" where
  "MouseBindGrabs evtype win mods button xu =
     (let key = \<lparr>Evtype = evtype, Win = win, Mod = mods, Button = button\<rparr>
      in grabs_at xu key)"

subsection \<open>Drag state\<close>

definition MouseDrag :: "('cb, 'w) XUtil \<Rightarrow> bool" where
  "MouseDrag xu = mouseDrag xu"

definition MouseDragSet :: "bool \<Rightarrow> ('cb, 'w) XUtil \<Rightarrow> ('cb, 'w) XUtil" where
  "MouseDragSet dragging xu = xu\<lparr>mouseDrag := dragging\<rparr>"

definition MouseDragStep :: "('cb, 'w) XUtil \<Rightarrow> 'w MouseDragFun option" where
  "MouseDragStep xu = mouseDragStep xu"

definition MouseDragStepSet :: "'w MouseDragFun option \<Rightarrow> ('cb, 'w) XUtil \<Rightarrow> ('cb, 'w) XUtil" where
  "MouseDragStepSet f xu = xu\<lparr>mouseDragStep := f\<rparr>"

definition MouseDragEnd :: "('cb, 'w) XUtil \<Rightarrow> 'w MouseDragFun option" where
  "MouseDragEnd xu = mouseDragEnd xu"

definition MouseDragEndSet :: "'w MouseDragFun option \<Rightarrow> ('cb, 'w) XUtil \<Rightarrow> ('cb, 'w) XUtil" where
  "MouseDragEndSet f xu = xu\<lparr>mouseDragEnd := f\<rparr>"

subsection \<open>The states the registry can be in\<close>

text \<open>Modelled from the spec: the constructor of \<open>XUtil\<close> is not in the file. A session
  starts with no registration (both maps allocated and empty) and with the drag
  controller idle: flag false, step and end functions nil.\<close>

definition NewXUtil :: "('cb, 'w) XUtil" where
  "NewXUtil = \<lparr>mousebinds = [], mousegrabs = [], mouseDrag = False,
                mouseDragStep = None, mouseDragEnd = None\<rparr>"

text \<open>The fields are unexported, so a state of the registry is whatever the methods of
  this file make of the initial one. (The read-only methods and \<open>RunMouseBindCallbacks\<close>
  write no field themselves; a callback run by the latter can only go through the
  methods below.)\<close>

inductive reachable :: "('cb, 'w) XUtil \<Rightarrow> bool" where
  new: "reachable NewXUtil"
| attach: "reachable xu \<Longrightarrow> reachable (AttachMouseBindCallback evtype win mods button fun xu)"
| detach: "reachable xu \<Longrightarrow> reachable (DetachMouseBindWindow evtype win xu)"
| drag_set: "reachable xu \<Longrightarrow> reachable (MouseDragSet dragging xu)"
| step_set: "reachable xu \<Longrightarrow> reachable (MouseDragStepSet f xu)"
| end_set: "reachable xu \<Longrightarrow> reachable (MouseDragEndSet f xu)"

text \<open>The Go expression \<open>xu.mousegrabs[k] == len(xu.mousebinds[k])\<close>, checked at every key
  that has an entry in either map (at any other key both sides are 0).\<close>

definition counts_agree :: "('cb, 'w) XUtil \<Rightarrow> bool" where
  "counts_agree xu =
     list_all (\<lambda>k. grabs_at xu k = int (length (binds_at xu k)))
       (map fst (mousebinds xu) @ map fst (mousegrabs xu))"

text \<open>The invariant in the form "whenever both entries exist": a key with an entry in
  both maps has its grab count equal to the length of its chain.\<close>

definition grab_invariant :: "('cb, 'w) XUtil \<Rightarrow> bool" where
  "grab_invariant xu \<longleftrightarrow>
     (\<forall>k cbs n. map_of (mousebinds xu) k = Some cbs \<and> map_of (mousegrabs xu) k = Some n
        \<longrightarrow> n = int (length cbs))"

section \<open>Facts about the operations\<close>

subsection \<open>Snapshots\<close>

lemma copy_cbs_id: "copy_cbs cbs = cbs"
  by (induction cbs) simp_all

lemma copy_keys_fst: "copy_keys al = map fst al"
  by (induction al rule: copy_keys.induct) simp_all

lemma in_keys_iff: "k \<in> set (map fst al) \<longleftrightarrow> map_of al k \<noteq> None"
  by (metis map_of_eq_None_iff set_map)

subsection \<open>What attaching writes\<close>

lemma map_of_binds_attach:
  "map_of (mousebinds (AttachMouseBindCallback e w m b f xu)) =
     (map_of (mousebinds xu))(\<lparr>Evtype = e, Win = w, Mod = m, Button = b\<rparr> \<mapsto>
        binds_at xu \<lparr>Evtype = e, Win = w, Mod = m, Button = b\<rparr> @ [f])"
  by (auto simp: AttachMouseBindCallback_def Let_def binds_at_def update_conv' split: option.splits)

lemma map_of_grabs_attach:
  "map_of (mousegrabs (AttachMouseBindCallback e w m b f xu)) =
     (map_of (mousegrabs xu))(\<lparr>Evtype = e, Win = w, Mod = m, Button = b\<rparr> \<mapsto>
        grabs_at xu \<lparr>Evtype = e, Win = w, Mod = m, Button = b\<rparr> + 1)"
  by (auto simp: AttachMouseBindCallback_def Let_def grabs_at_def update_conv' split: option.splits)

lemma binds_at_attach:
  "binds_at (AttachMouseBindCallback e w m b f xu) k =
     (if k = \<lparr>Evtype = e, Win = w, Mod = m, Button = b\<rparr> then binds_at xu k @ [f] else binds_at xu k)"
  unfolding binds_at_def [of "AttachMouseBindCallback e w m b f xu"] map_of_binds_attach
  by (simp add: binds_at_def)

lemma grabs_at_attach:
  "grabs_at (AttachMouseBindCallback e w m b f xu) k =
     (if k = \<lparr>Evtype = e, Win = w, Mod = m, Button = b\<rparr> then grabs_at xu k + 1 else grabs_at xu k)"
  unfolding grabs_at_def [of "AttachMouseBindCallback e w m b f xu"] map_of_grabs_attach
  by (simp add: grabs_at_def)

lemma drag_attach:
  "mouseDrag (AttachMouseBindCallback e w m b f xu) = mouseDrag xu \<and>
   mouseDragStep (AttachMouseBindCallback e w m b f xu) = mouseDragStep xu \<and>
   mouseDragEnd (AttachMouseBindCallback e w m b f xu) = mouseDragEnd xu"
  by (simp add: AttachMouseBindCallback_def Let_def)

subsection \<open>What detaching writes\<close>

lemma map_of_binds_detach_loop:
  "map_of (mousebinds (detach_loop ks e w xu)) k =
     (if k \<in> set ks \<and> Evtype k = e \<and> Win k = w then None else map_of (mousebinds xu) k)"
  by (induction ks arbitrary: xu) (auto simp: delete_conv')

lemma map_of_grabs_detach_loop:
  "map_of (mousegrabs (detach_loop ks e w xu)) k =
     (if k \<in> set ks \<and> Evtype k = e \<and> Win k = w
      then Some (grabs_at xu k - int (length (binds_at xu k)))
      else map_of (mousegrabs xu) k)"
proof (induction ks arbitrary: xu)
  case Nil
  show ?case by simp
next
  case (Cons key rest)
  show ?case
  proof (cases "Evtype key = e \<and> Win key = w")
    case False
    then show ?thesis using Cons.IH [of xu] by auto
  next
    case True
    let ?xu' = "xu\<lparr>mousegrabs :=
                  AList.update key (grabs_at xu key - int (length (binds_at xu key))) (mousegrabs xu),
                mousebinds := AList.delete key (mousebinds xu)\<rparr>"
    have g: "grabs_at ?xu' k =
        (if k = key then grabs_at xu key - int (length (binds_at xu key)) else grabs_at xu k)"
      by (simp add: grabs_at_def update_conv')
    have b: "binds_at ?xu' k = (if k = key then [] else binds_at xu k)"
      by (simp add: binds_at_def delete_conv')
    have m: "map_of (mousegrabs ?xu') k =
        (if k = key then Some (grabs_at xu key - int (length (binds_at xu key)))
         else map_of (mousegrabs xu) k)"
      by (simp add: update_conv')
    show ?thesis using True Cons.IH [of ?xu'] unfolding g b m
      by auto
  qed
qed

lemma drag_detach_loop:
  "mouseDrag (detach_loop ks e w xu) = mouseDrag xu \<and>
   mouseDragStep (detach_loop ks e w xu) = mouseDragStep xu \<and>
   mouseDragEnd (detach_loop ks e w xu) = mouseDragEnd xu"
  by (induction ks arbitrary: xu) auto

lemma map_of_binds_detach:
  "map_of (mousebinds (DetachMouseBindWindow e w xu)) k =
     (if Evtype k = e \<and> Win k = w then None else map_of (mousebinds xu) k)"
  unfolding DetachMouseBindWindow_def map_of_binds_detach_loop in_keys_iff
  by auto

lemma map_of_grabs_detach:
  "map_of (mousegrabs (DetachMouseBindWindow e w xu)) k =
     (if map_of (mousebinds xu) k \<noteq> None \<and> Evtype k = e \<and> Win k = w
      then Some (grabs_at xu k - int (length (binds_at xu k)))
      else map_of (mousegrabs xu) k)"
  unfolding DetachMouseBindWindow_def map_of_grabs_detach_loop in_keys_iff
  by simp

lemma binds_at_detach:
  "binds_at (DetachMouseBindWindow e w xu) k =
     (if Evtype k = e \<and> Win k = w then [] else binds_at xu k)"
  unfolding binds_at_def [of "DetachMouseBindWindow e w xu"] map_of_binds_detach
  by (simp add: binds_at_def)

lemma grabs_at_detach:
  "grabs_at (DetachMouseBindWindow e w xu) k =
     (if Evtype k = e \<and> Win k = w then grabs_at xu k - int (length (binds_at xu k))
      else grabs_at xu k)"
  unfolding grabs_at_def [of "DetachMouseBindWindow e w xu"] map_of_grabs_detach
  by (auto simp: grabs_at_def binds_at_def)

lemma detach_loop_no_match:
  "(\<And>k. k \<in> set ks \<Longrightarrow> \<not> (Evtype k = e \<and> Win k = w)) \<Longrightarrow> detach_loop ks e w xu = xu"
  by (induction ks arbitrary: xu) auto

subsection \<open>The scan for a matching key\<close>

lemma connected_loop_iff:
  "connected_loop ks e w \<longleftrightarrow> (\<exists>k. k \<in> set ks \<and> Evtype k = e \<and> Win k = w)"
  by (induction ks) auto

subsection \<open>The counts agree with the chains in every state\<close>

lemma counts_agree_iff:
  "counts_agree xu \<longleftrightarrow> (\<forall>k. grabs_at xu k = int (length (binds_at xu k)))"
proof
  assume ca: "counts_agree xu"
  show "\<forall>k. grabs_at xu k = int (length (binds_at xu k))"
  proof
    fix k
    show "grabs_at xu k = int (length (binds_at xu k))"
    proof (cases "k \<in> set (map fst (mousebinds xu) @ map fst (mousegrabs xu))")
      case True
      with ca show ?thesis
        unfolding counts_agree_def list_all_iff by blast
    next
      case False
      then have "map_of (mousebinds xu) k = None" and "map_of (mousegrabs xu) k = None"
        using in_keys_iff [of k "mousebinds xu"] in_keys_iff [of k "mousegrabs xu"] by auto
      then show ?thesis by (simp add: grabs_at_def binds_at_def)
    qed
  qed
next
  assume "\<forall>k. grabs_at xu k = int (length (binds_at xu k))"
  then show "counts_agree xu"
    unfolding counts_agree_def list_all_iff by blast
qed

lemma counts_agree_new: "counts_agree NewXUtil"
  by (simp add: counts_agree_def NewXUtil_def)

lemma counts_agree_attach:
  "counts_agree xu \<Longrightarrow> counts_agree (AttachMouseBindCallback e w m b f xu)"
  unfolding counts_agree_iff by (simp add: binds_at_attach grabs_at_attach)

lemma counts_agree_detach:
  "counts_agree xu \<Longrightarrow> counts_agree (DetachMouseBindWindow e w xu)"
  unfolding counts_agree_iff by (simp add: binds_at_detach grabs_at_detach)

lemma counts_agree_drag:
  "counts_agree (MouseDragSet d xu) = counts_agree xu"
  "counts_agree (MouseDragStepSet f xu) = counts_agree xu"
  "counts_agree (MouseDragEndSet f xu) = counts_agree xu"
  by (simp_all add: counts_agree_def MouseDragSet_def MouseDragStepSet_def MouseDragEndSet_def
      grabs_at_def binds_at_def)

lemma reachable_counts_agree: "reachable xu \<Longrightarrow> counts_agree xu"
  by (induction rule: reachable.induct)
    (simp_all add: counts_agree_new counts_agree_attach counts_agree_detach counts_agree_drag)

lemma reachable_grabs_at: "reachable xu \<Longrightarrow> grabs_at xu k = int (length (binds_at xu k))"
  using reachable_counts_agree counts_agree_iff by blast

text \<open>Keys stay unique in both association lists, as in a Go map, so a \<open>range\<close> over
  the keys meets each key once.\<close>

lemma reachable_distinct:
  "reachable xu \<Longrightarrow> distinct (map fst (mousebinds xu)) \<and> distinct (map fst (mousegrabs xu))"
proof (induction rule: reachable.induct)
  case new
  show ?case by (simp add: NewXUtil_def)
next
  case (attach xu evtype win mods button "fun")
  then show ?case
    by (auto simp: AttachMouseBindCallback_def Let_def distinct_update)
next
  case (detach xu evtype win)
  have "distinct (map fst (mousebinds xu')) \<and> distinct (map fst (mousegrabs xu')) \<Longrightarrow>
        distinct (map fst (mousebinds (detach_loop ks evtype win xu'))) \<and>
        distinct (map fst (mousegrabs (detach_loop ks evtype win xu')))" for ks and xu' :: "('a, 'b) XUtil"
    by (induction ks arbitrary: xu') (auto simp: distinct_update distinct_delete)
  with detach.IH show ?case by (simp add: DetachMouseBindWindow_def)
qed (simp_all add: MouseDragSet_def MouseDragStepSet_def MouseDragEndSet_def)

lemma counts_agree_grab_invariant: "counts_agree xu \<Longrightarrow> grab_invariant xu"
  unfolding counts_agree_iff grab_invariant_def
proof (intro allI impI)
  fix k cbs n
  assume a: "\<forall>k. grabs_at xu k = int (length (binds_at xu k))"
    and b: "map_of (mousebinds xu) k = Some cbs \<and> map_of (mousegrabs xu) k = Some n"
  from a have "grabs_at xu k = int (length (binds_at xu k))" by blast
  with b show "n = int (length cbs)" by (simp add: grabs_at_def binds_at_def)
qed

subsection \<open>Repeated attaches and the dispatch loop\<close>

lemma binds_at_new: "binds_at NewXUtil k = []"
  by (simp add: binds_at_def NewXUtil_def)

lemma grabs_at_new: "grabs_at NewXUtil k = 0"
  by (simp add: grabs_at_def NewXUtil_def)



lemma reachable_fold_attach:
  "reachable xu \<Longrightarrow> reachable (fold (AttachMouseBindCallback e w m b) funs xu)"
  by (induction funs arbitrary: xu) (simp_all add: reachable.attach)

lemma run_cbs_fold: "run_cbs Run ev cbs s = fold (\<lambda>cb. Run cb ev) cbs s"
  by (induction cbs arbitrary: s) simp_all

lemma run_cbs_record:
  "run_cbs (\<lambda>cb x s. (fst s, snd s @ [(cb, x)])) ev cbs (xu, calls) =
     (xu, calls @ map (\<lambda>cb. (cb, ev)) cbs)"
  by (induction cbs arbitrary: calls) simp_all

subsection \<open>The invariant on keys with both entries, from any state\<close>

lemma grab_invariant_detach:
  "grab_invariant xu \<Longrightarrow> grab_invariant (DetachMouseBindWindow e w xu)"
  unfolding grab_invariant_def
  by (auto simp: map_of_binds_detach map_of_grabs_detach split: if_splits)

lemma grab_invariant_attach:
  assumes "grab_invariant xu"
    and "grabs_at xu \<lparr>Evtype = e, Win = w, Mod = m, Button = b\<rparr>
           = int (length (binds_at xu \<lparr>Evtype = e, Win = w, Mod = m, Button = b\<rparr>))"
  shows "grab_invariant (AttachMouseBindCallback e w m b f xu)"
  using assms unfolding grab_invariant_def
  by (auto simp: map_of_binds_attach map_of_grabs_attach split: if_splits)

section \<open>The claims\<close>

text \<open>C1. In every state of the registry, a key that has an entry in both maps has a grab
  count equal to the length of its callback chain. The operations keep the counts in step
  with the chains from any state in which they are: if \<open>mousegrabs[k] == len(mousebinds[k])\<close>
  holds at every key, it holds again after \<open>AttachMouseBindCallback\<close> and after
  \<open>DetachMouseBindWindow\<close>; the form restricted to keys with both entries is kept by
  \<open>DetachMouseBindWindow\<close> from any state, and by \<open>AttachMouseBindCallback\<close> when the count
  of the attached key matches its chain.

  What the two operations write is fixed in every state, whether or not the counts agree
  there. \<open>AttachMouseBindCallback\<close> appends one callback to the chain of its key and sets
  the count of that key to the old count plus one. \<open>DetachMouseBindWindow\<close> removes the
  chain of each matching key and sets the count of that key to the old count minus the
  length of the chain removed (from count 5 and a chain of one callback: 4, not 0); it
  leaves the count entry of every other key as it is.\<close>

theorem grab_count_invariant:
  fixes xu :: "('cb, 'w) XUtil"
  shows "(reachable xu \<longrightarrow> grab_invariant xu)
    \<and> (counts_agree xu \<longrightarrow>
          grab_invariant xu
        \<and> counts_agree (AttachMouseBindCallback e w m b f xu)
        \<and> counts_agree (DetachMouseBindWindow e' w' xu))
    \<and> (grab_invariant xu \<longrightarrow> grab_invariant (DetachMouseBindWindow e' w' xu))
    \<and> (grab_invariant xu
          \<and> grabs_at xu \<lparr>Evtype = e, Win = w, Mod = m, Button = b\<rparr>
              = int (length (binds_at xu \<lparr>Evtype = e, Win = w, Mod = m, Button = b\<rparr>))
        \<longrightarrow> grab_invariant (AttachMouseBindCallback e w m b f xu))
    \<and> map_of (mousebinds (AttachMouseBindCallback e w m b f xu))
          \<lparr>Evtype = e, Win = w, Mod = m, Button = b\<rparr>
        = Some (binds_at xu \<lparr>Evtype = e, Win = w, Mod = m, Button = b\<rparr> @ [f])
    \<and> map_of (mousegrabs (AttachMouseBindCallback e w m b f xu))
          \<lparr>Evtype = e, Win = w, Mod = m, Button = b\<rparr>
        = Some (grabs_at xu \<lparr>Evtype = e, Win = w, Mod = m, Button = b\<rparr> + 1)
    \<and> length (MouseBindCallbacks (AttachMouseBindCallback e w m b f xu)
                 \<lparr>Evtype = e, Win = w, Mod = m, Button = b\<rparr>)
        = length (MouseBindCallbacks xu \<lparr>Evtype = e, Win = w, Mod = m, Button = b\<rparr>) + 1
    \<and> MouseBindGrabs e w m b (AttachMouseBindCallback e w m b f xu)
        = MouseBindGrabs e w m b xu + 1
    \<and> (\<forall>k cbs. map_of (mousebinds xu) k = Some cbs \<and> Evtype k = e' \<and> Win k = w'
          \<longrightarrow> map_of (mousebinds (DetachMouseBindWindow e' w' xu)) k = None
            \<and> map_of (mousegrabs (DetachMouseBindWindow e' w' xu)) k
                = Some (grabs_at xu k - int (length cbs))
            \<and> MouseBindGrabs (Evtype k) (Win k) (Mod k) (Button k)
                  (DetachMouseBindWindow e' w' xu)
                = MouseBindGrabs (Evtype k) (Win k) (Mod k) (Button k) xu - int (length cbs))
    \<and> (\<forall>k. \<not> (map_of (mousebinds xu) k \<noteq> None \<and> Evtype k = e' \<and> Win k = w')
          \<longrightarrow> map_of (mousegrabs (DetachMouseBindWindow e' w' xu)) k
                = map_of (mousegrabs xu) k)"
proof -
  let ?key = "\<lparr>Evtype = e, Win = w, Mod = m, Button = b\<rparr>"
  let ?at = "AttachMouseBindCallback e w m b f xu"
  let ?de = "DetachMouseBindWindow e' w' xu"
  have 1: "reachable xu \<longrightarrow> grab_invariant xu"
    by (simp add: reachable_counts_agree counts_agree_grab_invariant)
  have 2: "counts_agree xu \<longrightarrow>
      grab_invariant xu \<and> counts_agree ?at \<and> counts_agree ?de"
    by (simp add: counts_agree_grab_invariant counts_agree_attach counts_agree_detach)
  have 3: "grab_invariant xu \<longrightarrow> grab_invariant ?de"
    by (simp add: grab_invariant_detach)
  have 4: "grab_invariant xu \<and> grabs_at xu ?key = int (length (binds_at xu ?key))
      \<longrightarrow> grab_invariant ?at"
    by (simp add: grab_invariant_attach)
  have 5: "map_of (mousebinds ?at) ?key = Some (binds_at xu ?key @ [f])"
    by (simp add: map_of_binds_attach)
  have 6: "map_of (mousegrabs ?at) ?key = Some (grabs_at xu ?key + 1)"
    by (simp add: map_of_grabs_attach)
  have 7: "length (MouseBindCallbacks ?at ?key) = length (MouseBindCallbacks xu ?key) + 1"
    by (simp add: MouseBindCallbacks_def copy_cbs_id binds_at_attach)
  have 8: "MouseBindGrabs e w m b ?at = MouseBindGrabs e w m b xu + 1"
    by (simp add: MouseBindGrabs_def Let_def grabs_at_attach)
  have 9: "\<forall>k cbs. map_of (mousebinds xu) k = Some cbs \<and> Evtype k = e' \<and> Win k = w'
          \<longrightarrow> map_of (mousebinds ?de) k = None
            \<and> map_of (mousegrabs ?de) k = Some (grabs_at xu k - int (length cbs))
            \<and> MouseBindGrabs (Evtype k) (Win k) (Mod k) (Button k) ?de
                = MouseBindGrabs (Evtype k) (Win k) (Mod k) (Button k) xu - int (length cbs)"
  proof (intro allI impI)
    fix k cbs
    assume h: "map_of (mousebinds xu) k = Some cbs \<and> Evtype k = e' \<and> Win k = w'"
    have g: "MouseBindGrabs (Evtype k) (Win k) (Mod k) (Button k) s = grabs_at s k"
      for s :: "('cb, 'w) XUtil"
      by (cases k) (simp add: MouseBindGrabs_def Let_def)
    have b: "binds_at xu k = cbs" using h by (simp add: binds_at_def)
    show "map_of (mousebinds ?de) k = None
        \<and> map_of (mousegrabs ?de) k = Some (grabs_at xu k - int (length cbs))
        \<and> MouseBindGrabs (Evtype k) (Win k) (Mod k) (Button k) ?de
            = MouseBindGrabs (Evtype k) (Win k) (Mod k) (Button k) xu - int (length cbs)"
      unfolding g using h b
      by (simp add: map_of_binds_detach map_of_grabs_detach grabs_at_detach)
  qed
  have 10: "\<forall>k. \<not> (map_of (mousebinds xu) k \<noteq> None \<and> Evtype k = e' \<and> Win k = w')
          \<longrightarrow> map_of (mousegrabs ?de) k = map_of (mousegrabs xu) k"
    by (auto simp: map_of_grabs_detach)
  from 1 2 3 4 5 6 7 8 9 10 show ?thesis by blast
qed

theorem grab_count_invariant_witness:
  "reachable (AttachMouseBindCallback 4 1 0 1 ''cbA'' (NewXUtil :: (string, unit) XUtil))
   \<and> counts_agree (AttachMouseBindCallback 4 1 0 1 ''cbA'' (NewXUtil :: (string, unit) XUtil))
   \<and> grab_invariant (AttachMouseBindCallback 4 1 0 1 ''cbA'' (NewXUtil :: (string, unit) XUtil))
   \<and> counts_agree (AttachMouseBindCallback 4 1 0 1 ''cbB''
        (AttachMouseBindCallback 4 1 0 1 ''cbA'' (NewXUtil :: (string, unit) XUtil)))
   \<and> grab_invariant (AttachMouseBindCallback 4 1 0 1 ''cbB''
        (AttachMouseBindCallback 4 1 0 1 ''cbA'' (NewXUtil :: (string, unit) XUtil)))
   \<and> grab_invariant (DetachMouseBindWindow 4 1
        (AttachMouseBindCallback 4 1 0 1 ''cbA'' (NewXUtil :: (string, unit) XUtil)))
   \<and> map_of (mousebinds \<lparr>mousebinds = [(\<lparr>Evtype = 4, Win = 1, Mod = 0, Button = 1\<rparr>, [''cbA''])],
          mousegrabs = [(\<lparr>Evtype = 4, Win = 1, Mod = 0, Button = 1\<rparr>, 5)],
          mouseDrag = False, mouseDragStep = None :: unit MouseDragFun option,
          mouseDragEnd = None\<rparr>) \<lparr>Evtype = 4, Win = 1, Mod = 0, Button = 1\<rparr> = Some [''cbA'']
   \<and> map_of (mousegrabs (DetachMouseBindWindow 4 1
        \<lparr>mousebinds = [(\<lparr>Evtype = 4, Win = 1, Mod = 0, Button = 1\<rparr>, [''cbA''])],
          mousegrabs = [(\<lparr>Evtype = 4, Win = 1, Mod = 0, Button = 1\<rparr>, 5)],
          mouseDrag = False, mouseDragStep = None :: unit MouseDragFun option,
          mouseDragEnd = None\<rparr>)) \<lparr>Evtype = 4, Win = 1, Mod = 0, Button = 1\<rparr> = Some 4
   \<and> MouseBindGrabs 4 1 0 1 (AttachMouseBindCallback 4 1 0 1 ''cbB''
        \<lparr>mousebinds = [(\<lparr>Evtype = 4, Win = 1, Mod = 0, Button = 1\<rparr>, [''cbA''])],
          mousegrabs = [(\<lparr>Evtype = 4, Win = 1, Mod = 0, Button = 1\<rparr>, 5)],
          mouseDrag = False, mouseDragStep = None :: unit MouseDragFun option,
          mouseDragEnd = None\<rparr>) = 6"
proof -
  let ?k = "\<lparr>Evtype = 4, Win = 1, Mod = 0, Button = 1\<rparr>"
  let ?R = "AttachMouseBindCallback 4 1 0 1 ''cbA'' (NewXUtil :: (string, unit) XUtil)"
  let ?S = "\<lparr>mousebinds = [(?k, [''cbA''])], mousegrabs = [(?k, 5)],
          mouseDrag = False, mouseDragStep = None :: unit MouseDragFun option,
          mouseDragEnd = None\<rparr>"
  have r: "reachable ?R"
    by (intro reachable.attach reachable.new)
  have c: "counts_agree ?R"
    by (simp add: counts_agree_def AttachMouseBindCallback_def NewXUtil_def grabs_at_def
        binds_at_def Let_def)
  have a: "grabs_at ?R ?k = int (length (binds_at ?R ?k))"
    by (simp add: AttachMouseBindCallback_def NewXUtil_def grabs_at_def binds_at_def Let_def)
  have R: "grab_invariant ?R
      \<and> counts_agree (AttachMouseBindCallback 4 1 0 1 ''cbB'' ?R)
      \<and> grab_invariant (AttachMouseBindCallback 4 1 0 1 ''cbB'' ?R)
      \<and> grab_invariant (DetachMouseBindWindow 4 1 ?R)"
    using grab_count_invariant [of ?R 4 1 0 1 "''cbB''" 4 1] r c a by blast
  have s: "map_of (mousebinds ?S) ?k = Some [''cbA'']"
    by simp
  have g: "grabs_at ?S ?k = 5"
    by (simp add: grabs_at_def)
  have g': "MouseBindGrabs 4 1 0 1 ?S = 5"
    by (simp add: MouseBindGrabs_def grabs_at_def Let_def)
  have S: "map_of (mousegrabs (DetachMouseBindWindow 4 1 ?S)) ?k = Some 4
      \<and> MouseBindGrabs 4 1 0 1 (AttachMouseBindCallback 4 1 0 1 ''cbB'' ?S) = 6"
    using grab_count_invariant [of ?S 4 1 0 1 "''cbB''" 4 1] s g g'
    by (auto dest!: spec [where x = "?k"])
  from r c R s S show ?thesis by blast
qed



text \<open>C3. \<open>DetachMouseBindWindow evtype win\<close> removes the chain of exactly the keys whose
  event type and window are \<open>evtype\<close> and \<open>win\<close>, whatever their modifiers and button: the
  keys left are the other keys. For a key with another window or event type the chain, the
  grab-count entry and \<open>MouseBindGrabs\<close> are as before. In every state of the registry,
  \<open>MouseBindGrabs\<close> is 0 afterwards for every key with that event type and window, so
  for each removed key.\<close>

theorem detach_window_effect:
  "(\<forall>k. map_of (mousebinds (DetachMouseBindWindow e w xu)) k =
          (if Evtype k = e \<and> Win k = w then None else map_of (mousebinds xu) k))
   \<and> set (MouseBindKeys (DetachMouseBindWindow e w xu)) =
        {k. k \<in> set (MouseBindKeys xu) \<and> \<not> (Evtype k = e \<and> Win k = w)}
   \<and> (\<forall>k. \<not> (Evtype k = e \<and> Win k = w) \<longrightarrow>
          MouseBindCallbacks (DetachMouseBindWindow e w xu) k = MouseBindCallbacks xu k
        \<and> map_of (mousegrabs (DetachMouseBindWindow e w xu)) k = map_of (mousegrabs xu) k
        \<and> MouseBindGrabs (Evtype k) (Win k) (Mod k) (Button k) (DetachMouseBindWindow e w xu)
            = MouseBindGrabs (Evtype k) (Win k) (Mod k) (Button k) xu)
   \<and> (reachable xu \<longrightarrow>
        (\<forall>mods button. MouseBindGrabs e w mods button (DetachMouseBindWindow e w xu) = 0))"
proof -
  have 1: "\<forall>k. map_of (mousebinds (DetachMouseBindWindow e w xu)) k =
          (if Evtype k = e \<and> Win k = w then None else map_of (mousebinds xu) k)"
    by (simp add: map_of_binds_detach)
  have 2: "set (MouseBindKeys (DetachMouseBindWindow e w xu)) =
        {k. k \<in> set (MouseBindKeys xu) \<and> \<not> (Evtype k = e \<and> Win k = w)}"
  proof -
    have mem: "k \<in> set (MouseBindKeys s) \<longleftrightarrow> map_of (mousebinds s) k \<noteq> None"
      for k and s :: "('a, 'b) XUtil"
      unfolding MouseBindKeys_def copy_keys_fst by (rule in_keys_iff)
    show ?thesis
      by (rule set_eqI) (simp add: mem map_of_binds_detach)
  qed
  have 3: "\<forall>k. \<not> (Evtype k = e \<and> Win k = w) \<longrightarrow>
          MouseBindCallbacks (DetachMouseBindWindow e w xu) k = MouseBindCallbacks xu k
        \<and> map_of (mousegrabs (DetachMouseBindWindow e w xu)) k = map_of (mousegrabs xu) k
        \<and> MouseBindGrabs (Evtype k) (Win k) (Mod k) (Button k) (DetachMouseBindWindow e w xu)
            = MouseBindGrabs (Evtype k) (Win k) (Mod k) (Button k) xu"
    by (simp add: MouseBindCallbacks_def MouseBindGrabs_def Let_def binds_at_detach
        grabs_at_detach map_of_grabs_detach)
  have 4: "reachable xu \<longrightarrow>
        (\<forall>mods button. MouseBindGrabs e w mods button (DetachMouseBindWindow e w xu) = 0)"
    by (simp add: MouseBindGrabs_def Let_def grabs_at_detach reachable_grabs_at)
  from 1 2 3 4 show ?thesis by blast
qed

theorem detach_window_effect_witness:
  "reachable (AttachMouseBindCallback 4 2 0 1 ''cbC'' (AttachMouseBindCallback 4 1 8 3 ''cbB''
      (AttachMouseBindCallback 4 1 0 1 ''cbA'' (NewXUtil :: (string, unit) XUtil))))
   \<and> MouseBindKeys (DetachMouseBindWindow 4 1 (AttachMouseBindCallback 4 2 0 1 ''cbC''
      (AttachMouseBindCallback 4 1 8 3 ''cbB''
      (AttachMouseBindCallback 4 1 0 1 ''cbA'' (NewXUtil :: (string, unit) XUtil)))))
      = [\<lparr>Evtype = 4, Win = 2, Mod = 0, Button = 1\<rparr>]
   \<and> MouseBindGrabs 4 1 8 3 (DetachMouseBindWindow 4 1 (AttachMouseBindCallback 4 2 0 1 ''cbC''
      (AttachMouseBindCallback 4 1 8 3 ''cbB''
      (AttachMouseBindCallback 4 1 0 1 ''cbA'' (NewXUtil :: (string, unit) XUtil))))) = 0
   \<and> MouseBindGrabs 4 2 0 1 (DetachMouseBindWindow 4 1 (AttachMouseBindCallback 4 2 0 1 ''cbC''
      (AttachMouseBindCallback 4 1 8 3 ''cbB''
      (AttachMouseBindCallback 4 1 0 1 ''cbA'' (NewXUtil :: (string, unit) XUtil))))) = 1"
proof -
  let ?xu = "AttachMouseBindCallback 4 2 0 1 ''cbC'' (AttachMouseBindCallback 4 1 8 3 ''cbB''
      (AttachMouseBindCallback 4 1 0 1 ''cbA'' (NewXUtil :: (string, unit) XUtil)))"
  have r: "reachable ?xu"
    by (intro reachable.attach reachable.new)
  have k: "MouseBindKeys (DetachMouseBindWindow 4 1 ?xu) = [\<lparr>Evtype = 4, Win = 2, Mod = 0, Button = 1\<rparr>]"
    by (simp add: MouseBindKeys_def DetachMouseBindWindow_def AttachMouseBindCallback_def
        NewXUtil_def binds_at_def grabs_at_def Let_def)
  have g: "MouseBindGrabs 4 2 0 1 ?xu = 1"
    by (simp add: MouseBindGrabs_def AttachMouseBindCallback_def
        NewXUtil_def binds_at_def grabs_at_def Let_def)
  have "MouseBindGrabs 4 1 8 3 (DetachMouseBindWindow 4 1 ?xu) = 0
      \<and> MouseBindGrabs 4 2 0 1 (DetachMouseBindWindow 4 1 ?xu) = 1"
    using detach_window_effect [of 4 1 ?xu] r g
    by (auto dest!: spec [where x = "\<lparr>Evtype = 4, Win = 2, Mod = 0, Button = 1\<rparr>"])
  with r k show ?thesis by simp
qed

text \<open>C4. \<open>RunMouseBindCallbacks\<close> runs \<open>Run\<close> on the callbacks that \<open>MouseBindCallbacks\<close>
  returns for the key built from its arguments, from first to last, each with the raw
  event, whatever the callbacks do to the registry meanwhile. With callbacks that only
  record their call, the calls made are one per callback of the chain, in the order of
  the chain. The chain is in attach order: attaching \<open>A\<close> and then \<open>B\<close> puts \<open>A, B\<close> at its
  end, and on a key with no registration before, dispatching runs \<open>A\<close>, then \<open>B\<close>, and
  nothing else.\<close>

theorem dispatch_in_attach_order:
  "RunMouseBindCallbacks Run ev e w m b (xu, world) =
      fold (\<lambda>cb. Run cb ev) (MouseBindCallbacks xu \<lparr>Evtype = e, Win = w, Mod = m, Button = b\<rparr>)
        (xu, world)
   \<and> RunMouseBindCallbacks (\<lambda>cb x s. (fst s, snd s @ [(cb, x)])) ev e w m b (xu, calls) =
      (xu, calls @ map (\<lambda>cb. (cb, ev))
                     (MouseBindCallbacks xu \<lparr>Evtype = e, Win = w, Mod = m, Button = b\<rparr>))
   \<and> MouseBindCallbacks (AttachMouseBindCallback e w m b B (AttachMouseBindCallback e w m b A xu))
        \<lparr>Evtype = e, Win = w, Mod = m, Button = b\<rparr> =
      MouseBindCallbacks xu \<lparr>Evtype = e, Win = w, Mod = m, Button = b\<rparr> @ [A, B]
   \<and> (map_of (mousebinds xu) \<lparr>Evtype = e, Win = w, Mod = m, Button = b\<rparr> = None \<longrightarrow>
        RunMouseBindCallbacks Run ev e w m b
          (AttachMouseBindCallback e w m b B (AttachMouseBindCallback e w m b A xu), world) =
        Run B ev (Run A ev
          (AttachMouseBindCallback e w m b B (AttachMouseBindCallback e w m b A xu), world)))"
proof -
  let ?key = "\<lparr>Evtype = e, Win = w, Mod = m, Button = b\<rparr>"
  let ?xu2 = "AttachMouseBindCallback e w m b B (AttachMouseBindCallback e w m b A xu)"
  have 1: "RunMouseBindCallbacks Run ev e w m b (xu, world) =
      fold (\<lambda>cb. Run cb ev) (MouseBindCallbacks xu ?key) (xu, world)"
    by (simp add: RunMouseBindCallbacks_def Let_def run_cbs_fold)
  have 2: "RunMouseBindCallbacks (\<lambda>cb x s. (fst s, snd s @ [(cb, x)])) ev e w m b (xu, calls) =
      (xu, calls @ map (\<lambda>cb. (cb, ev)) (MouseBindCallbacks xu ?key))"
    by (simp add: RunMouseBindCallbacks_def Let_def run_cbs_record)
  have 3: "MouseBindCallbacks ?xu2 ?key = MouseBindCallbacks xu ?key @ [A, B]"
    by (simp add: MouseBindCallbacks_def copy_cbs_id binds_at_attach)
  have 4: "map_of (mousebinds xu) ?key = None \<longrightarrow>
        RunMouseBindCallbacks Run ev e w m b (?xu2, world) = Run B ev (Run A ev (?xu2, world))"
  proof
    assume "map_of (mousebinds xu) ?key = None"
    then have "MouseBindCallbacks xu ?key = []"
      by (simp add: MouseBindCallbacks_def binds_at_def)
    with 3 have "MouseBindCallbacks ?xu2 ?key = [A, B]" by simp
    then show "RunMouseBindCallbacks Run ev e w m b (?xu2, world) = Run B ev (Run A ev (?xu2, world))"
      by (simp add: RunMouseBindCallbacks_def Let_def)
  qed
  from 1 2 3 4 show ?thesis by blast
qed

theorem dispatch_in_attach_order_witness:
  "map_of (mousebinds (NewXUtil :: (string, (string \<times> nat) list) XUtil))
      \<lparr>Evtype = 4, Win = 1, Mod = 0, Button = 1\<rparr> = None
   \<and> RunMouseBindCallbacks (\<lambda>cb x s. (fst s, snd s @ [(cb, x)])) (42 :: nat) 4 1 0 1
       (AttachMouseBindCallback 4 1 0 1 ''cbB''
          (AttachMouseBindCallback 4 1 0 1 ''cbA'' (NewXUtil :: (string, (string \<times> nat) list) XUtil)), [])
     = (AttachMouseBindCallback 4 1 0 1 ''cbB''
          (AttachMouseBindCallback 4 1 0 1 ''cbA'' (NewXUtil :: (string, (string \<times> nat) list) XUtil)),
        [(''cbA'', 42), (''cbB'', 42)])"
proof -
  have n: "map_of (mousebinds (NewXUtil :: (string, (string \<times> nat) list) XUtil))
      \<lparr>Evtype = 4, Win = 1, Mod = 0, Button = 1\<rparr> = None"
    by (simp add: NewXUtil_def)
  show ?thesis
    using dispatch_in_attach_order [of "\<lambda>cb x s. (fst s, snd s @ [(cb, x)])" "42 :: nat" 4 1 0 1
        "NewXUtil :: (string, (string \<times> nat) list) XUtil" "[]" "[]" "''cbB''" "''cbA''"] n
    by simp
qed

text \<open>C6. \<open>ConnectedMouseBind evtype win\<close> is true exactly when some key of \<open>mousebinds\<close> has
  that event type and that window, with any modifiers and any button.\<close>

theorem connected_iff_some_key:
  "(ConnectedMouseBind e w xu \<longleftrightarrow>
      (\<exists>mods button. map_of (mousebinds xu) \<lparr>Evtype = e, Win = w, Mod = mods, Button = button\<rparr> \<noteq> None))
   \<and> (ConnectedMouseBind e w xu \<longleftrightarrow>
      (\<exists>k. k \<in> set (MouseBindKeys xu) \<and> Evtype k = e \<and> Win k = w))"
proof -
  have a: "ConnectedMouseBind e w xu \<longleftrightarrow> (\<exists>k. k \<in> set (MouseBindKeys xu) \<and> Evtype k = e \<and> Win k = w)"
    by (simp add: ConnectedMouseBind_def connected_loop_iff MouseBindKeys_def copy_keys_fst)
  have b: "(\<exists>k. k \<in> set (MouseBindKeys xu) \<and> Evtype k = e \<and> Win k = w) \<longleftrightarrow>
      (\<exists>mods button. map_of (mousebinds xu) \<lparr>Evtype = e, Win = w, Mod = mods, Button = button\<rparr> \<noteq> None)"
  proof
    assume "\<exists>k. k \<in> set (MouseBindKeys xu) \<and> Evtype k = e \<and> Win k = w"
    then obtain k where k: "k \<in> set (MouseBindKeys xu)" "Evtype k = e" "Win k = w" by blast
    have "k = \<lparr>Evtype = e, Win = w, Mod = Mod k, Button = Button k\<rparr>"
      using k(2,3) by simp
    moreover have "map_of (mousebinds xu) k \<noteq> None"
      using k(1) unfolding MouseBindKeys_def copy_keys_fst in_keys_iff .
    ultimately show "\<exists>mods button.
        map_of (mousebinds xu) \<lparr>Evtype = e, Win = w, Mod = mods, Button = button\<rparr> \<noteq> None"
      by metis
  next
    assume "\<exists>mods button.
        map_of (mousebinds xu) \<lparr>Evtype = e, Win = w, Mod = mods, Button = button\<rparr> \<noteq> None"
    then obtain mods button where
      "map_of (mousebinds xu) \<lparr>Evtype = e, Win = w, Mod = mods, Button = button\<rparr> \<noteq> None" by blast
    then have "\<lparr>Evtype = e, Win = w, Mod = mods, Button = button\<rparr> \<in> set (MouseBindKeys xu)"
      unfolding MouseBindKeys_def copy_keys_fst in_keys_iff .
    then show "\<exists>k. k \<in> set (MouseBindKeys xu) \<and> Evtype k = e \<and> Win k = w"
      by (intro exI [of _ "\<lparr>Evtype = e, Win = w, Mod = mods, Button = button\<rparr>"]) simp
  qed
  from a b show ?thesis by simp
qed

text \<open>C9. After \<open>MouseDragSet b\<close>, \<open>MouseDrag\<close> returns \<open>b\<close>; the step function and the end
  function are the ones installed before, and so is the registry.\<close>

theorem drag_set_only_flag:
  "MouseDrag (MouseDragSet b xu) = b
   \<and> MouseDragStep (MouseDragSet b xu) = MouseDragStep xu
   \<and> MouseDragEnd (MouseDragSet b xu) = MouseDragEnd xu
   \<and> mousebinds (MouseDragSet b xu) = mousebinds xu
   \<and> mousegrabs (MouseDragSet b xu) = mousegrabs xu"
  by (simp add: MouseDrag_def MouseDragSet_def MouseDragStep_def MouseDragEnd_def)

text \<open>C10. \<open>AttachMouseBindCallback\<close> of a key writes at that key only: at every other key
  the chain and the grab count, as entries of the maps and as \<open>MouseBindCallbacks\<close> and
  \<open>MouseBindGrabs\<close> return them, are as before. The chain of the key itself is the old
  chain, in its order, with the new callback last. The drag fields are as before.\<close>

theorem attach_frame:
  "(\<forall>k'. k' \<noteq> \<lparr>Evtype = e, Win = w, Mod = m, Button = b\<rparr> \<longrightarrow>
        map_of (mousebinds (AttachMouseBindCallback e w m b f xu)) k' = map_of (mousebinds xu) k'
      \<and> map_of (mousegrabs (AttachMouseBindCallback e w m b f xu)) k' = map_of (mousegrabs xu) k'
      \<and> MouseBindCallbacks (AttachMouseBindCallback e w m b f xu) k' = MouseBindCallbacks xu k'
      \<and> MouseBindGrabs (Evtype k') (Win k') (Mod k') (Button k') (AttachMouseBindCallback e w m b f xu)
          = MouseBindGrabs (Evtype k') (Win k') (Mod k') (Button k') xu)
   \<and> MouseBindCallbacks (AttachMouseBindCallback e w m b f xu)
        \<lparr>Evtype = e, Win = w, Mod = m, Button = b\<rparr>
      = MouseBindCallbacks xu \<lparr>Evtype = e, Win = w, Mod = m, Button = b\<rparr> @ [f]
   \<and> mouseDrag (AttachMouseBindCallback e w m b f xu) = mouseDrag xu
   \<and> mouseDragStep (AttachMouseBindCallback e w m b f xu) = mouseDragStep xu
   \<and> mouseDragEnd (AttachMouseBindCallback e w m b f xu) = mouseDragEnd xu"
proof -
  have 1: "\<forall>k'. k' \<noteq> \<lparr>Evtype = e, Win = w, Mod = m, Button = b\<rparr> \<longrightarrow>
        map_of (mousebinds (AttachMouseBindCallback e w m b f xu)) k' = map_of (mousebinds xu) k'
      \<and> map_of (mousegrabs (AttachMouseBindCallback e w m b f xu)) k' = map_of (mousegrabs xu) k'
      \<and> MouseBindCallbacks (AttachMouseBindCallback e w m b f xu) k' = MouseBindCallbacks xu k'
      \<and> MouseBindGrabs (Evtype k') (Win k') (Mod k') (Button k') (AttachMouseBindCallback e w m b f xu)
          = MouseBindGrabs (Evtype k') (Win k') (Mod k') (Button k') xu"
    by (simp add: map_of_binds_attach map_of_grabs_attach MouseBindCallbacks_def MouseBindGrabs_def
        Let_def binds_at_attach grabs_at_attach)
  have 2: "MouseBindCallbacks (AttachMouseBindCallback e w m b f xu)
        \<lparr>Evtype = e, Win = w, Mod = m, Button = b\<rparr>
      = MouseBindCallbacks xu \<lparr>Evtype = e, Win = w, Mod = m, Button = b\<rparr> @ [f]"
    by (simp add: MouseBindCallbacks_def copy_cbs_id binds_at_attach)
  from 1 2 drag_attach [of e w m b f xu] show ?thesis by blast
qed

theorem attach_frame_witness:
  "\<lparr>Evtype = 5, Win = 1, Mod = 0, Button = 1\<rparr> \<noteq> \<lparr>Evtype = 4, Win = 1, Mod = 0, Button = 1\<rparr>
   \<and> MouseBindCallbacks (AttachMouseBindCallback 4 1 0 1 ''cbB''
        (AttachMouseBindCallback 5 1 0 1 ''cbR''
          (AttachMouseBindCallback 4 1 0 1 ''cbA'' (NewXUtil :: (string, unit) XUtil))))
        \<lparr>Evtype = 5, Win = 1, Mod = 0, Button = 1\<rparr> = [''cbR'']
   \<and> MouseBindGrabs 5 1 0 1 (AttachMouseBindCallback 4 1 0 1 ''cbB''
        (AttachMouseBindCallback 5 1 0 1 ''cbR''
          (AttachMouseBindCallback 4 1 0 1 ''cbA'' (NewXUtil :: (string, unit) XUtil)))) = 1
   \<and> MouseBindCallbacks (AttachMouseBindCallback 4 1 0 1 ''cbB''
        (AttachMouseBindCallback 5 1 0 1 ''cbR''
          (AttachMouseBindCallback 4 1 0 1 ''cbA'' (NewXUtil :: (string, unit) XUtil))))
        \<lparr>Evtype = 4, Win = 1, Mod = 0, Button = 1\<rparr> = [''cbA'', ''cbB'']"
proof -
  let ?xu = "AttachMouseBindCallback 5 1 0 1 ''cbR''
          (AttachMouseBindCallback 4 1 0 1 ''cbA'' (NewXUtil :: (string, unit) XUtil))"
  have ne: "\<lparr>Evtype = 5, Win = 1, Mod = 0, Button = 1\<rparr> \<noteq> \<lparr>Evtype = 4 :: int, Win = 1, Mod = 0, Button = 1\<rparr>"
    by simp
  have c5: "MouseBindCallbacks ?xu \<lparr>Evtype = 5, Win = 1, Mod = 0, Button = 1\<rparr> = [''cbR'']"
    by (simp add: MouseBindCallbacks_def AttachMouseBindCallback_def NewXUtil_def binds_at_def
        grabs_at_def Let_def)
  have g5: "MouseBindGrabs 5 1 0 1 ?xu = 1"
    by (simp add: MouseBindGrabs_def AttachMouseBindCallback_def NewXUtil_def binds_at_def
        grabs_at_def Let_def)
  have c4: "MouseBindCallbacks ?xu \<lparr>Evtype = 4, Win = 1, Mod = 0, Button = 1\<rparr> = [''cbA'']"
    by (simp add: MouseBindCallbacks_def AttachMouseBindCallback_def NewXUtil_def binds_at_def
        grabs_at_def Let_def)
  have "MouseBindCallbacks (AttachMouseBindCallback 4 1 0 1 ''cbB'' ?xu)
          \<lparr>Evtype = 5, Win = 1, Mod = 0, Button = 1\<rparr> = [''cbR'']
      \<and> MouseBindGrabs 5 1 0 1 (AttachMouseBindCallback 4 1 0 1 ''cbB'' ?xu) = 1
      \<and> MouseBindCallbacks (AttachMouseBindCallback 4 1 0 1 ''cbB'' ?xu)
          \<lparr>Evtype = 4, Win = 1, Mod = 0, Button = 1\<rparr> = [''cbA'', ''cbB'']"
    using attach_frame [of 4 1 0 1 "''cbB''" ?xu] ne c5 g5 c4
    by (auto dest!: spec [where x = "\<lparr>Evtype = 5, Win = 1, Mod = 0, Button = 1\<rparr>"])
  with ne show ?thesis by simp
qed




text \<open>C8. When no key with event type \<open>evtype\<close> and window \<open>win\<close> is registered,
  \<open>DetachMouseBindWindow evtype win\<close> returns the state it was given, the first time and
  the second; and in every state of the registry \<open>MouseBindGrabs\<close> is 0, before and after,
  for every key with that event type and window. In any state, a second call right after
  a first changes nothing more.\<close>

theorem detach_window_idempotent:
  fixes xu xu' :: "('cb, 'w) XUtil"
  assumes "\<forall>mods button.
      map_of (mousebinds xu) \<lparr>Evtype = e, Win = w, Mod = mods, Button = button\<rparr> = None"
  shows "DetachMouseBindWindow e w xu = xu
       \<and> DetachMouseBindWindow e w (DetachMouseBindWindow e w xu) = xu
       \<and> (reachable xu \<longrightarrow> (\<forall>mods button.
            MouseBindGrabs e w mods button xu = 0
          \<and> MouseBindGrabs e w mods button (DetachMouseBindWindow e w xu) = 0
          \<and> MouseBindGrabs e w mods button
              (DetachMouseBindWindow e w (DetachMouseBindWindow e w xu)) = 0))
       \<and> DetachMouseBindWindow e w (DetachMouseBindWindow e w xu') = DetachMouseBindWindow e w xu'"
proof -
  have nomatch: "\<not> (Evtype k = e \<and> Win k = w)" if "k \<in> set (map fst (mousebinds s))"
    and "\<forall>mods button.
      map_of (mousebinds s) \<lparr>Evtype = e, Win = w, Mod = mods, Button = button\<rparr> = None"
    for k and s :: "('cb, 'w) XUtil"
  proof
    assume "Evtype k = e \<and> Win k = w"
    then have "k = \<lparr>Evtype = e, Win = w, Mod = Mod k, Button = Button k\<rparr>" by simp
    with that(2) have "map_of (mousebinds s) k = None" by metis
    with that(1) show False unfolding in_keys_iff by simp
  qed
  have same: "DetachMouseBindWindow e w s = s" if "\<forall>mods button.
      map_of (mousebinds s) \<lparr>Evtype = e, Win = w, Mod = mods, Button = button\<rparr> = None"
    for s :: "('cb, 'w) XUtil"
    unfolding DetachMouseBindWindow_def
    by (rule detach_loop_no_match) (use nomatch that in blast)
  have 1: "DetachMouseBindWindow e w xu = xu" using assms by (rule same)
  have 3: "reachable xu \<longrightarrow> (\<forall>mods button.
            MouseBindGrabs e w mods button xu = 0
          \<and> MouseBindGrabs e w mods button (DetachMouseBindWindow e w xu) = 0
          \<and> MouseBindGrabs e w mods button
              (DetachMouseBindWindow e w (DetachMouseBindWindow e w xu)) = 0)"
  proof (intro impI allI)
    fix mods button
    assume r: "reachable xu"
    have "binds_at xu \<lparr>Evtype = e, Win = w, Mod = mods, Button = button\<rparr> = []"
      using assms by (simp add: binds_at_def)
    then have "MouseBindGrabs e w mods button xu = 0"
      using reachable_grabs_at [OF r, of "\<lparr>Evtype = e, Win = w, Mod = mods, Button = button\<rparr>"]
      by (simp add: MouseBindGrabs_def Let_def)
    then show "MouseBindGrabs e w mods button xu = 0
          \<and> MouseBindGrabs e w mods button (DetachMouseBindWindow e w xu) = 0
          \<and> MouseBindGrabs e w mods button
              (DetachMouseBindWindow e w (DetachMouseBindWindow e w xu)) = 0"
      by (simp add: 1)
  qed
  have 4: "DetachMouseBindWindow e w (DetachMouseBindWindow e w xu') = DetachMouseBindWindow e w xu'"
    by (rule same) (simp add: map_of_binds_detach)
  from 1 3 4 show ?thesis by simp
qed

theorem detach_window_idempotent_witness:
  "(\<forall>mods button. map_of (mousebinds (DetachMouseBindWindow 4 2
        (AttachMouseBindCallback 4 1 0 1 ''cbA''
          (AttachMouseBindCallback 4 2 0 1 ''cbB'' (NewXUtil :: (string, unit) XUtil)))))
        \<lparr>Evtype = 4, Win = 2, Mod = mods, Button = button\<rparr> = None)
   \<and> DetachMouseBindWindow 4 2 (DetachMouseBindWindow 4 2 (DetachMouseBindWindow 4 2
        (AttachMouseBindCallback 4 1 0 1 ''cbA''
          (AttachMouseBindCallback 4 2 0 1 ''cbB'' (NewXUtil :: (string, unit) XUtil)))))
     = DetachMouseBindWindow 4 2
        (AttachMouseBindCallback 4 1 0 1 ''cbA''
          (AttachMouseBindCallback 4 2 0 1 ''cbB'' (NewXUtil :: (string, unit) XUtil)))
   \<and> MouseBindGrabs 4 2 0 1 (DetachMouseBindWindow 4 2 (DetachMouseBindWindow 4 2
        (DetachMouseBindWindow 4 2
        (AttachMouseBindCallback 4 1 0 1 ''cbA''
          (AttachMouseBindCallback 4 2 0 1 ''cbB'' (NewXUtil :: (string, unit) XUtil)))))) = 0"
proof -
  let ?xu = "DetachMouseBindWindow 4 2 (AttachMouseBindCallback 4 1 0 1 ''cbA''
          (AttachMouseBindCallback 4 2 0 1 ''cbB'' (NewXUtil :: (string, unit) XUtil)))"
  have n: "\<forall>mods button. map_of (mousebinds ?xu)
        \<lparr>Evtype = 4, Win = 2, Mod = mods, Button = button\<rparr> = None"
    by (simp add: DetachMouseBindWindow_def AttachMouseBindCallback_def NewXUtil_def
        binds_at_def grabs_at_def Let_def)
  have r: "reachable ?xu"
    by (intro reachable.detach reachable.attach reachable.new)
  have "DetachMouseBindWindow 4 2 (DetachMouseBindWindow 4 2 ?xu) = ?xu
      \<and> MouseBindGrabs 4 2 0 1 (DetachMouseBindWindow 4 2 (DetachMouseBindWindow 4 2 ?xu)) = 0"
    using detach_window_idempotent [OF n] r by blast
  with n show ?thesis by blast
qed

end
